theory Spec2Isabelle
  imports Complex_Main
begin

section \<open>JavaScript values\<close>

text \<open>
  The policy code reads untyped JSON: configuration fields and order fields may hold any
  primitive value, and the code coerces them with \<^verbatim>\<open>||\<close>, \<^verbatim>\<open>!!\<close>, \<^verbatim>\<open>Number(..)\<close> and
  \<^verbatim>\<open>String(..)\<close>. Numbers are IEEE doubles; they are only compared here (never added),
  so a number is a rational, \<open>NaN\<close> or an infinity. Instants returned by
  \<^verbatim>\<open>Date.now()\<close> are integers (milliseconds). A string is represented by the bytes of
  its UTF-8 encoding, so a string of ASCII characters is the list of its characters and
  a character outside ASCII is a run of bytes from 128 upwards.
\<close>

datatype jsnum = NaN | Fin rat | PosInf | NegInf

datatype jsval = JUndefined | JNull | JBool bool | JNum jsnum | JStr string

text \<open>\<^verbatim>\<open>a < b\<close> on numbers: false as soon as one side is \<open>NaN\<close>.\<close>

fun jsnum_less :: "jsnum \<Rightarrow> jsnum \<Rightarrow> bool" where
  "jsnum_less NaN b = False"
| "jsnum_less a NaN = False"
| "jsnum_less (Fin a) (Fin b) = (a < b)"
| "jsnum_less (Fin a) PosInf = True"
| "jsnum_less (Fin a) NegInf = False"
| "jsnum_less PosInf b = False"
| "jsnum_less NegInf NegInf = False"
| "jsnum_less NegInf b = True"

text \<open>\<^verbatim>\<open>a > b\<close> is \<^verbatim>\<open>b < a\<close>; \<^verbatim>\<open>a >= b\<close> is "not \<^verbatim>\<open>a < b\<close>", and false with a \<open>NaN\<close>.\<close>

definition jsnum_gt :: "jsnum \<Rightarrow> jsnum \<Rightarrow> bool" where
  "jsnum_gt a b = jsnum_less b a"

definition jsnum_ge :: "jsnum \<Rightarrow> jsnum \<Rightarrow> bool" where
  "jsnum_ge a b = (a \<noteq> NaN \<and> b \<noteq> NaN \<and> \<not> jsnum_less a b)"

text \<open>Truthiness: what \<^verbatim>\<open>!!v\<close>, \<^verbatim>\<open>v || d\<close> and \<^verbatim>\<open>if (v)\<close> test.\<close>

definition num_truthy :: "jsnum \<Rightarrow> bool" where
  "num_truthy n = (n \<noteq> NaN \<and> n \<noteq> Fin 0)"

fun truthy :: "jsval \<Rightarrow> bool" where
  "truthy JUndefined = False"
| "truthy JNull = False"
| "truthy (JBool b) = b"
| "truthy (JNum n) = num_truthy n"
| "truthy (JStr s) = (s \<noteq> [])"

definition js_or :: "jsval \<Rightarrow> jsval \<Rightarrow> jsval" where
  "js_or a b = (if truthy a then a else b)"

text \<open>
  Three operations of the language are not written out: reading a string as a number
  (\<^verbatim>\<open>Number("12.5")\<close>), printing a number (\<^verbatim>\<open>String(12.5)\<close>, template literals), and
  the Unicode upper-casing of a string that has a character outside ASCII
  (\<^verbatim>\<open>toUpperCase()\<close> follows the Unicode case mappings there, some of which change the
  length of the string). The model takes them as the record \<open>builtins\<close>; every
  theorem with a variable \<open>B\<close> holds whatever these three functions are.
\<close>

record builtins =
  str_to_num :: "string \<Rightarrow> jsnum"
  num_to_str :: "jsnum \<Rightarrow> string"
  upper_other :: "string \<Rightarrow> string"

fun js_Number :: "builtins \<Rightarrow> jsval \<Rightarrow> jsnum" where
  "js_Number B JUndefined = NaN"
| "js_Number B JNull = Fin 0"
| "js_Number B (JBool b) = (if b then Fin 1 else Fin 0)"
| "js_Number B (JNum n) = n"
| "js_Number B (JStr s) = str_to_num B s"

fun js_String :: "builtins \<Rightarrow> jsval \<Rightarrow> string" where
  "js_String B JUndefined = ''undefined''"
| "js_String B JNull = ''null''"
| "js_String B (JBool b) = (if b then ''true'' else ''false'')"
| "js_String B (JNum n) = num_to_str B n"
| "js_String B (JStr s) = s"

text \<open>
  \<^verbatim>\<open>toUpperCase()\<close>. On a string of ASCII characters it turns the letters a-z into
  A-Z and keeps every other character; on any other string it is the runtime's
  \<open>upper_other\<close>.
\<close>

definition is_ascii :: "char \<Rightarrow> bool" where
  "is_ascii c = ((of_char c :: nat) < 128)"

definition upper_char :: "char \<Rightarrow> char" where
  "upper_char c =
     (case map_of (zip ''abcdefghijklmnopqrstuvwxyz'' ''ABCDEFGHIJKLMNOPQRSTUVWXYZ'') c of
        None \<Rightarrow> c
      | Some u \<Rightarrow> u)"

definition toUpperCase :: "builtins \<Rightarrow> string \<Rightarrow> string" where
  "toUpperCase B s = (if list_all is_ascii s then map upper_char s else upper_other B s)"

text \<open>
  A decimal runtime, for evaluating the model at concrete inputs: it is exact on
  integers, which it prints in decimal, and on strings of decimal digits. The concrete
  inputs below hold ASCII strings only, whose upper-casing does not consult the runtime;
  its \<open>upper_other\<close> keeps the string.
\<close>

function show_nat :: "nat \<Rightarrow> string" where
  "show_nat n = (if n < 10 then [''0123456789'' ! n]
                 else show_nat (n div 10) @ [''0123456789'' ! (n mod 10)])"
  by pat_completeness auto
termination
  by (relation "measure id") auto

declare show_nat.simps [simp del]

definition show_int :: "int \<Rightarrow> string" where
  "show_int i = (if i < 0 then CHR ''-'' # show_nat (nat (- i)) else show_nat (nat i))"

definition is_digit :: "char \<Rightarrow> bool" where
  "is_digit c = (48 \<le> (of_char c :: nat) \<and> (of_char c :: nat) \<le> 57)"

definition read_digits :: "string \<Rightarrow> nat" where
  "read_digits s = foldl (\<lambda>acc c. 10 * acc + (of_char c - 48)) 0 s"

definition decimal_builtins :: builtins where
  "decimal_builtins =
     \<lparr> str_to_num = (\<lambda>s. if list_all is_digit s then Fin (of_nat (read_digits s)) else NaN),
       num_to_str = (\<lambda>n. case n of
                       NaN \<Rightarrow> ''NaN''
                     | PosInf \<Rightarrow> ''Infinity''
                     | NegInf \<Rightarrow> ''-Infinity''
                     | Fin q \<Rightarrow> show_int \<lfloor>q\<rfloor>),
       upper_other = (\<lambda>s. s) \<rparr>"

section \<open>RateLimiter\<close>

text \<open>
  \<^verbatim>\<open>class RateLimiter\<close> (gate.js lines 8-24): the ceiling, the counter of the current
  window and the window's second. The counter starts at 0 and is only incremented by 1,
  so it is a natural number (it stays far below \<open>2^53\<close>, where a double would stop
  counting).
\<close>

record rate_limiter =
  maxPerSec :: jsnum
  bucket :: nat
  ts :: int

text \<open>
  \<^verbatim>\<open>constructor(maxPerSec = 5) { this.maxPerSec = Number(maxPerSec) || 5; ... }\<close>:
  the default parameter replaces \<open>undefined\<close> only.
\<close>

definition new_RateLimiter :: "builtins \<Rightarrow> jsval \<Rightarrow> rate_limiter" where
  "new_RateLimiter B v =
     (let arg = (if v = JUndefined then JNum (Fin 5) else v);
          n = js_Number B arg
      in \<lparr> maxPerSec = (if num_truthy n then n else Fin 5), bucket = 0, ts = 0 \<rparr>)"

text \<open>
  \<^verbatim>\<open>allow()\<close>: \<open>t\<close> is what \<^verbatim>\<open>Date.now()\<close> returns in this call; the result is the
  answer and the limiter after the call.
\<close>

definition RateLimiter_allow :: "rate_limiter \<Rightarrow> int \<Rightarrow> bool \<times> rate_limiter" where
  "RateLimiter_allow r t =
     (let now = t div 1000;
          r1 = (if ts r \<noteq> now then r\<lparr>ts := now, bucket := 0\<rparr> else r)
      in if jsnum_ge (Fin (of_nat (bucket r1))) (maxPerSec r1) then (False, r1)
         else (True, r1\<lparr>bucket := bucket r1 + 1\<rparr>))"

text \<open>Successive calls of \<^verbatim>\<open>allow()\<close>, one per clock reading: the answers and the final limiter.\<close>

fun allow_calls :: "rate_limiter \<Rightarrow> int list \<Rightarrow> bool list \<times> rate_limiter" where
  "allow_calls r [] = ([], r)"
| "allow_calls r (t # rest) =
     (let (ok, r1) = RateLimiter_allow r t;
          (oks, r2) = allow_calls r1 rest
      in (ok # oks, r2))"

section \<open>PolicyGate: state\<close>

text \<open>
  The configuration object, read through \<^verbatim>\<open>this.config?.kill_switch\<close>,
  \<^verbatim>\<open>this.config?.limits?.rate_per_sec\<close>, \<^verbatim>\<open>this.config?.limits?.max_order_usdt\<close> and
  \<^verbatim>\<open>this.config?.guards?.max_staleness_ms\<close>. A missing field reads as \<open>undefined\<close>;
  a missing (or non-object) \<^verbatim>\<open>limits\<close> or \<^verbatim>\<open>guards\<close> is \<open>None\<close>.
\<close>

record limits =
  rate_per_sec :: jsval
  max_order_usdt :: jsval

record guards =
  max_staleness_ms :: jsval

record config =
  kill_switch :: jsval
  limits :: "limits option"
  guards :: "guards option"

definition empty_config :: config where
  "empty_config = \<lparr> kill_switch = JUndefined, limits = None, guards = None \<rparr>"

definition cfg_rate_per_sec :: "config \<Rightarrow> jsval" where
  "cfg_rate_per_sec c = (case limits c of None \<Rightarrow> JUndefined | Some l \<Rightarrow> rate_per_sec l)"

definition cfg_max_order_usdt :: "config \<Rightarrow> jsval" where
  "cfg_max_order_usdt c = (case limits c of None \<Rightarrow> JUndefined | Some l \<Rightarrow> max_order_usdt l)"

definition cfg_max_staleness_ms :: "config \<Rightarrow> jsval" where
  "cfg_max_staleness_ms c = (case guards c of None \<Rightarrow> JUndefined | Some gd \<Rightarrow> max_staleness_ms gd)"

text \<open>
  The version is the string \<^verbatim>\<open>pg-${new Date().toISOString()}\<close>. The ISO-8601 rendering
  has millisecond resolution and is one-to-one on instants, so the version is
  represented by the instant it was stamped at.
\<close>

datatype version = PG int

text \<open>The fields of \<^verbatim>\<open>class PolicyGate\<close> (gate.js lines 27-36).\<close>

record policy_gate =
  config :: config
  version :: version
  symbolHalt :: "string set"
  globalHalt :: bool
  safeMode :: bool
  rateLimiter :: rate_limiter
  lastSnapshotAt :: int
  startedAt :: int

text \<open>
  The constructor reads the clock three times (\<^verbatim>\<open>new Date()\<close>, \<^verbatim>\<open>Date.now()\<close> twice).
  \<^verbatim>\<open>config || {}\<close>: a missing configuration is the empty object.
\<close>

definition new_PolicyGate :: "builtins \<Rightarrow> config option \<Rightarrow> int \<Rightarrow> int \<Rightarrow> int \<Rightarrow> policy_gate" where
  "new_PolicyGate B cfg t_version t_snapshot t_started =
     (let c = (case cfg of None \<Rightarrow> empty_config | Some c' \<Rightarrow> c')
      in \<lparr> config = c,
           version = PG t_version,
           symbolHalt = {},
           globalHalt = False,
           safeMode = False,
           rateLimiter = new_RateLimiter B (js_or (cfg_rate_per_sec c) (JNum (Fin 5))),
           lastSnapshotAt = t_snapshot,
           startedAt = t_started \<rparr>)"

definition updateConfig :: "builtins \<Rightarrow> policy_gate \<Rightarrow> config option \<Rightarrow> int \<Rightarrow> policy_gate" where
  "updateConfig B g newCfg t =
     (let c = (case newCfg of None \<Rightarrow> empty_config | Some c' \<Rightarrow> c')
      in g\<lparr> config := c,
            version := PG t,
            rateLimiter := new_RateLimiter B (js_or (cfg_rate_per_sec c) (JNum (Fin 5))) \<rparr>)"

definition setGlobalHalt :: "policy_gate \<Rightarrow> jsval \<Rightarrow> policy_gate" where
  "setGlobalHalt g on = g\<lparr>globalHalt := truthy on\<rparr>"

definition setSymbolHalt :: "builtins \<Rightarrow> policy_gate \<Rightarrow> jsval \<Rightarrow> jsval \<Rightarrow> policy_gate" where
  "setSymbolHalt B g symbol on =
     (let S = toUpperCase B (js_String B (js_or symbol (JStr '''')))
      in if S = [] then g
         else if truthy on then g\<lparr>symbolHalt := insert S (symbolHalt g)\<rparr>
         else g\<lparr>symbolHalt := symbolHalt g - {S}\<rparr>)"

definition setSafeMode :: "policy_gate \<Rightarrow> jsval \<Rightarrow> policy_gate" where
  "setSafeMode g on = g\<lparr>safeMode := truthy on\<rparr>"

section \<open>PolicyGate: decisions\<close>

text \<open>
  The two shapes of decision object: \<^verbatim>\<open>{allow: true, reason_code, policy_version,
  expires_at}\<close> and \<^verbatim>\<open>{allow: false, reason_code, reason_detail, policy_version,
  denied_at}\<close>.
\<close>

datatype decision =
    Allow (reason_code: string) (policy_version: version) (expires_at: int)
  | Deny (reason_code: string) (reason_detail: string) (policy_version: version) (denied_at: int)

text \<open>\<^verbatim>\<open>allow(reason)\<close> and \<^verbatim>\<open>deny(code, detail)\<close>; \<open>t\<close> is the reading of \<^verbatim>\<open>Date.now()\<close>.\<close>

definition allow :: "policy_gate \<Rightarrow> int \<Rightarrow> string \<Rightarrow> decision" where
  "allow g t reason = Allow reason (version g) (t + 3000)"

definition deny :: "policy_gate \<Rightarrow> int \<Rightarrow> string \<Rightarrow> string \<Rightarrow> decision" where
  "deny g t code detail = Deny code detail (version g) t"

text \<open>
  An order object is its list of own properties; a property that is not there reads as
  \<open>undefined\<close>. The argument of \<^verbatim>\<open>canExecute\<close> may also be missing (\<open>undefined\<close>) or
  \<open>null\<close>.
\<close>

type_synonym js_object = "(string \<times> jsval) list"

datatype order_arg = OrdUndefined | OrdNull | OrdObject js_object

definition field :: "js_object \<Rightarrow> string \<Rightarrow> jsval" where
  "field ob k = (case map_of ob k of None \<Rightarrow> JUndefined | Some v \<Rightarrow> v)"

text \<open>
  \<^verbatim>\<open>_isCloseOnly(order)\<close>:
  \<^verbatim>\<open>!!order.reduceOnly || order.closeOnly === true || order.intent === "close"\<close>.
\<close>

definition isCloseOnly :: "js_object \<Rightarrow> bool" where
  "isCloseOnly ob =
     (truthy (field ob ''reduceOnly'') \<or> field ob ''closeOnly'' = JBool True
      \<or> field ob ''intent'' = JStr ''close'')"

text \<open>
  One call of \<^verbatim>\<open>canExecute\<close> reads the clock at up to four places: on entry
  (\<^verbatim>\<open>this.lastSnapshotAt = Date.now()\<close>), inside \<^verbatim>\<open>rateLimiter.allow()\<close>, in the staleness
  guard, and inside \<^verbatim>\<open>allow\<close>/\<^verbatim>\<open>deny\<close>. Each place is passed at most once, so the
  readings are four values; nothing is assumed about their order (the wall clock may
  jump).
\<close>

record clock =
  at_entry :: int
  at_limiter :: int
  at_stale :: int
  at_decision :: int

datatype js_error = TypeError

text \<open>
  The rules of \<^verbatim>\<open>canExecute\<close> from the kill switch to the default allow: gate.js lines
  74-115, and the same statements in the second copy of the class (trade.js lines
  365-417). \<open>g\<close> is the gate after the entry timestamp was stored.
\<close>

definition rules :: "builtins \<Rightarrow> policy_gate \<Rightarrow> clock \<Rightarrow> js_object \<Rightarrow> decision \<times> policy_gate" where
  "rules B g clk order =
     (if truthy (kill_switch (config g)) then
        (if isCloseOnly order then (allow g (at_decision clk) ''KILL_SWITCH_CLOSE_ONLY'', g)
         else (deny g (at_decision clk) ''KILL_SWITCH'' ''Global kill switch enabled'', g))
      else if globalHalt g \<and> \<not> isCloseOnly order then
        (deny g (at_decision clk) ''GLOBAL_HALT'' ''Trading globally halted'', g)
      else
        let sym = toUpperCase B (js_String B (js_or (field order ''symbol'') (JStr ''''))) in
        if sym \<noteq> [] \<and> sym \<in> symbolHalt g \<and> \<not> isCloseOnly order then
          (deny g (at_decision clk) ''SYMBOL_HALT'' (''Symbol '' @ sym @ '' halted''), g)
        else
          let (ok, rl) = RateLimiter_allow (rateLimiter g) (at_limiter clk);
              g2 = g\<lparr>rateLimiter := rl\<rparr>
          in
          if \<not> ok then
            (deny g2 (at_decision clk) ''RATE_LIMIT'' ''Too many requests per second'', g2)
          else if safeMode g2 \<and> \<not> isCloseOnly order then
            (deny g2 (at_decision clk) ''SAFE_MODE'' ''Safe mode: close-only'', g2)
          else
            let maxStale = js_Number B (js_or (cfg_max_staleness_ms (config g2)) (JNum (Fin 0)));
                age = at_stale clk - (if lastSnapshotAt g2 \<noteq> 0 then lastSnapshotAt g2 else 0)
            in
            if jsnum_gt maxStale (Fin 0) \<and> jsnum_gt (Fin (of_int age)) maxStale
               \<and> \<not> isCloseOnly order then
              (deny g2 (at_decision clk) ''DATA_STALE''
                 (''Snapshot stale: '' @ num_to_str B (Fin (of_int age)) @ ''ms''), g2)
            else
              let notional = js_Number B (js_or (field order ''notional'')
                                            (js_or (field order ''quote'') (JNum (Fin 0))));
                  maxOrder = js_Number B (js_or (cfg_max_order_usdt (config g2)) (JNum (Fin 0)))
              in
              if jsnum_gt maxOrder (Fin 0) \<and> jsnum_gt notional (Fin 0)
                 \<and> jsnum_gt notional maxOrder \<and> \<not> isCloseOnly order then
                (deny g2 (at_decision clk) ''MAX_ORDER''
                   (''Notional '' @ num_to_str B notional @ '' > '' @ num_to_str B maxOrder), g2)
              else if isCloseOnly order then (allow g2 (at_decision clk) ''CLOSE_ONLY'', g2)
              else (allow g2 (at_decision clk) ''PASS'', g2))"

text \<open>
  \<^verbatim>\<open>canExecute\<close> of src/server/gate.js (lines 71-116). The default parameter
  \<^verbatim>\<open>order = {}\<close> replaces \<open>undefined\<close> only; with \<open>null\<close> the first property read
  (\<^verbatim>\<open>order.reduceOnly\<close> or \<^verbatim>\<open>order.symbol\<close>, on every path before the rate limiter is
  consulted) throws a \<open>TypeError\<close>, after the timestamp was stored.
\<close>

definition canExecute ::
  "builtins \<Rightarrow> policy_gate \<Rightarrow> clock \<Rightarrow> order_arg \<Rightarrow> (js_error + decision) \<times> policy_gate" where
  "canExecute B g clk arg =
     (let g1 = g\<lparr>lastSnapshotAt := at_entry clk\<rparr> in
      case arg of
        OrdNull \<Rightarrow> (Inl TypeError, g1)
      | OrdUndefined \<Rightarrow> (let (d, g2) = rules B g1 clk [] in (Inr d, g2))
      | OrdObject order \<Rightarrow> (let (d, g2) = rules B g1 clk order in (Inr d, g2)))"

text \<open>
  \<^verbatim>\<open>canExecute\<close> of the second copy of the class (trade.js lines 357-418), which starts
  with \<^verbatim>\<open>if (!order || Object.keys(order).length === 0) return
  this.allow("EMPTY_ORDER_PASS")\<close>.
\<close>

definition canExecute2 ::
  "builtins \<Rightarrow> policy_gate \<Rightarrow> clock \<Rightarrow> order_arg \<Rightarrow> (js_error + decision) \<times> policy_gate" where
  "canExecute2 B g clk arg =
     (let g1 = g\<lparr>lastSnapshotAt := at_entry clk\<rparr>;
          order = (case arg of OrdObject ob \<Rightarrow> ob | _ \<Rightarrow> [])
      in if arg = OrdNull \<or> order = [] then
           (Inr (allow g1 (at_decision clk) ''EMPTY_ORDER_PASS''), g1)
         else (let (d, g2) = rules B g1 clk order in (Inr d, g2)))"

text \<open>A run of evaluations against one gate, each with its clock readings and its argument.\<close>

fun evaluations ::
  "(policy_gate \<Rightarrow> clock \<Rightarrow> order_arg \<Rightarrow> (js_error + decision) \<times> policy_gate) \<Rightarrow>
   policy_gate \<Rightarrow> (clock \<times> order_arg) list \<Rightarrow> (js_error + decision) list \<times> policy_gate" where
  "evaluations ev g [] = ([], g)"
| "evaluations ev g ((clk, arg) # rest) =
     (let (r, g1) = ev g clk arg;
          (rs, g2) = evaluations ev g1 rest
      in (r # rs, g2))"

section \<open>Letter case\<close>

text \<open>
  Two characters are the same letter when they are equal or one is the capital (A-Z) of
  the other (a-z); two strings differ only in letter case when they have the same length
  and the same letter at every position.
\<close>

definition same_letter :: "char \<Rightarrow> char \<Rightarrow> bool" where
  "same_letter a b =
     (a = b
      \<or> (a, b) \<in> set (zip ''abcdefghijklmnopqrstuvwxyz'' ''ABCDEFGHIJKLMNOPQRSTUVWXYZ'')
      \<or> (b, a) \<in> set (zip ''abcdefghijklmnopqrstuvwxyz'' ''ABCDEFGHIJKLMNOPQRSTUVWXYZ''))"

definition differs_only_in_case :: "string \<Rightarrow> string \<Rightarrow> bool" where
  "differs_only_in_case s t = list_all2 same_letter s t"

section \<open>Concrete inputs\<close>

text \<open>A clock that does not advance during the call: every reading is \<open>t\<close>.\<close>

definition clock_at :: "int \<Rightarrow> clock" where
  "clock_at t = \<lparr> at_entry = t, at_limiter = t, at_stale = t, at_decision = t \<rparr>"

text \<open>
  The configuration \<^verbatim>\<open>{kill_switch, limits: {rate_per_sec, max_order_usdt}, guards:
  {max_staleness_ms}}\<close>.
\<close>

definition mk_config :: "jsval \<Rightarrow> jsval \<Rightarrow> jsval \<Rightarrow> jsval \<Rightarrow> config" where
  "mk_config kill rate maxOrder maxStale =
     \<lparr> kill_switch = kill,
       limits = Some \<lparr> rate_per_sec = rate, max_order_usdt = maxOrder \<rparr>,
       guards = Some \<lparr> max_staleness_ms = maxStale \<rparr> \<rparr>"

text \<open>A gate built without a configuration at instant 0.\<close>

definition fresh_gate :: policy_gate where
  "fresh_gate = new_PolicyGate decimal_builtins None 0 0 0"

text \<open>
  A gate with \<^verbatim>\<open>guards.max_staleness_ms = 1000\<close>, built at instant 0 and evaluated
  once at instant 0.
\<close>

definition idle_gate :: policy_gate where
  "idle_gate =
     snd (canExecute decimal_builtins
            (new_PolicyGate decimal_builtins
               (Some (mk_config (JBool False) JUndefined JUndefined (JNum (Fin 1000)))) 0 0 0)
            (clock_at 0) (OrdObject [(''symbol'', JStr ''BTCUSDT''), (''side'', JStr ''buy'')]))"

text \<open>A gate whose configuration has the kill switch on, and nothing else.\<close>

definition kill_gate :: policy_gate where
  "kill_gate = new_PolicyGate decimal_builtins
                 (Some (mk_config (JBool True) JUndefined JUndefined JUndefined)) 0 0 0"

text \<open>
  A gate with the kill switch on and every other rule ready to fire: global halt, safe
  mode, a limiter whose window (second 9) is used up, a staleness window and a cap.
\<close>

definition halted_gate :: policy_gate where
  "halted_gate =
     (setSafeMode (setGlobalHalt
        (new_PolicyGate decimal_builtins
           (Some (mk_config (JBool True) (JNum (Fin 1)) (JNum (Fin 10)) (JNum (Fin 1)))) 0 0 0)
        (JBool True)) (JBool True))
     \<lparr> rateLimiter := \<lparr>maxPerSec = Fin 1, bucket = 1, ts = 9\<rparr> \<rparr>"

text \<open>
  A gate with global halt and safe mode on, one halted symbol and a cap of 10, whose
  kill switch is off.
\<close>

definition guarded_gate :: policy_gate where
  "guarded_gate =
     setSymbolHalt decimal_builtins
       (setSafeMode (setGlobalHalt
          (new_PolicyGate decimal_builtins
             (Some (mk_config (JBool False) (JNum (Fin 1)) (JNum (Fin 10)) (JNum (Fin 1)))) 0 0 0)
          (JBool True)) (JBool True))
       (JStr ''x'') (JBool True)"

text \<open>
  The scenario configuration \<^verbatim>\<open>{limits: {rate_per_sec: 2, max_order_usdt: 1000}}\<close>,
  in a gate built at instant 1000, and two orders for it.
\<close>

definition capped_gate :: policy_gate where
  "capped_gate = new_PolicyGate decimal_builtins
                   (Some (mk_config (JBool False) (JNum (Fin 2)) (JNum (Fin 1000)) JUndefined))
                   1000 1000 1000"

definition two_orders :: "(clock \<times> order_arg) list" where
  "two_orders =
     [(clock_at 1100, OrdObject [(''symbol'', JStr ''ETHUSDT''), (''side'', JStr ''buy''),
                                 (''notional'', JNum (Fin 500))]),
      (clock_at 1200, OrdObject [(''symbol'', JStr ''ETHUSDT''), (''side'', JStr ''buy''),
                                 (''notional'', JNum (Fin 5000))])]"

section \<open>Facts about the RateLimiter\<close>

lemma RateLimiter_allow_maxPerSec:
  "RateLimiter_allow r t = (ok, r') \<Longrightarrow> maxPerSec r' = maxPerSec r"
  by (auto simp add: RateLimiter_allow_def Let_def split: if_splits)

lemma allow_same_window:
  assumes "maxPerSec r = Fin (of_nat N)" and "ts r = t div 1000"
  shows "RateLimiter_allow r t =
           (if bucket r < N then (True, r\<lparr>bucket := bucket r + 1\<rparr>) else (False, r))"
  using assms by (simp add: RateLimiter_allow_def Let_def jsnum_ge_def)

lemma allow_new_window:
  assumes "maxPerSec r = Fin (of_nat N)" and "ts r \<noteq> t div 1000" and "0 < N"
  shows "RateLimiter_allow r t = (True, r\<lparr>ts := t div 1000, bucket := 1\<rparr>)"
  using assms by (simp add: RateLimiter_allow_def Let_def jsnum_ge_def)

text \<open>
  Calls inside the window the limiter is already in: the counter fills up to the
  ceiling and stays there.
\<close>

lemma allow_calls_same_window:
  assumes "maxPerSec r = Fin (of_nat N)" and "ts r = s" and "bucket r \<le> N"
      and "\<forall>t \<in> set calls. t div 1000 = s"
  shows "allow_calls r calls =
           (replicate (min (length calls) (N - bucket r)) True
              @ replicate (length calls - (N - bucket r)) False,
            r\<lparr>bucket := min (bucket r + length calls) N\<rparr>)"
  using assms
proof (induction calls arbitrary: r)
  case Nil
  then show ?case by simp
next
  case (Cons t rest)
  have t: "ts r = t div 1000" using Cons.prems by simp
  show ?case
  proof (cases "bucket r < N")
    case True
    let ?r1 = "r\<lparr>bucket := bucket r + 1\<rparr>"
    have step: "RateLimiter_allow r t = (True, ?r1)"
      using allow_same_window [OF Cons.prems(1) t] True by simp
    have ih: "allow_calls ?r1 rest =
           (replicate (min (length rest) (N - bucket ?r1)) True
              @ replicate (length rest - (N - bucket ?r1)) False,
            ?r1\<lparr>bucket := min (bucket ?r1 + length rest) N\<rparr>)"
      using Cons.prems True by (intro Cons.IH) auto
    obtain k where k: "N - bucket r = Suc k" using True by (cases "N - bucket r") auto
    then have k': "N - (bucket r + 1) = k" by simp
    show ?thesis using step ih k k' True by (auto simp add: min_def)
  next
    case False
    then have b: "bucket r = N" using Cons.prems by simp
    have step: "RateLimiter_allow r t = (False, r)"
      using allow_same_window [OF Cons.prems(1) t] False by simp
    have ih: "allow_calls r rest =
           (replicate (min (length rest) (N - bucket r)) True
              @ replicate (length rest - (N - bucket r)) False,
            r\<lparr>bucket := min (bucket r + length rest) N\<rparr>)"
      using Cons.prems by (intro Cons.IH) auto
    show ?thesis using step ih b by (simp add: replicate_app_Cons_same)
  qed
qed

text \<open>
  Calls that all fall into second \<open>s\<close>, the first of them opening the window (the
  limiter was in another second, or its counter is 0).
\<close>

lemma allow_calls_window:
  assumes ceiling: "maxPerSec r = Fin (of_nat N)"
      and nonempty: "calls \<noteq> []"
      and window: "\<forall>t \<in> set calls. t div 1000 = s"
      and start: "ts r \<noteq> s \<or> bucket r = 0"
  shows "allow_calls r calls =
           (replicate (min (length calls) N) True @ replicate (length calls - N) False,
            r\<lparr>ts := s, bucket := min (length calls) N\<rparr>)"
proof -
  obtain t rest where calls: "calls = t # rest"
    using nonempty by (cases calls) auto
  define r0 where "r0 = r\<lparr>ts := s, bucket := 0\<rparr>"
  have t: "t div 1000 = s" using window calls by simp
  have first: "RateLimiter_allow r t = RateLimiter_allow r0 t"
    using start t by (auto simp add: RateLimiter_allow_def r0_def Let_def)
  have "allow_calls r calls = allow_calls r0 calls"
    using first by (simp add: calls)
  moreover have "allow_calls r0 calls =
           (replicate (min (length calls) (N - bucket r0)) True
              @ replicate (length calls - (N - bucket r0)) False,
            r0\<lparr>bucket := min (bucket r0 + length calls) N\<rparr>)"
    using ceiling window by (intro allow_calls_same_window) (auto simp add: r0_def)
  ultimately show ?thesis
    by (simp add: r0_def)
qed

text \<open>
  Claim C5. For a positive ceiling \<open>N\<close> and calls of \<^verbatim>\<open>allow()\<close> that all fall into
  one wall-clock second \<open>s\<close>, starting when the limiter enters that second: exactly
  the first \<open>N\<close> calls answer true and every later one answers false; the counter
  stops at \<open>N\<close> (a refused call does not increment it); and the next call in another
  second is admitted, with the counter reset (it is 1 after that call).
\<close>

theorem RateLimiter_window_ceiling:
  assumes N: "0 < N"
      and ceiling: "maxPerSec r = Fin (of_nat N)"
      and nonempty: "calls \<noteq> []"
      and window: "\<forall>t \<in> set calls. t div 1000 = s"
      and start: "ts r \<noteq> s \<or> bucket r = 0"
  shows "fst (allow_calls r calls) =
           replicate (min (length calls) N) True @ replicate (length calls - N) False
         \<and> bucket (snd (allow_calls r calls)) = min (length calls) N
         \<and> ts (snd (allow_calls r calls)) = s
         \<and> (\<forall>t'. t' div 1000 \<noteq> s \<longrightarrow>
               RateLimiter_allow (snd (allow_calls r calls)) t' =
                 (True, (snd (allow_calls r calls))\<lparr>ts := t' div 1000, bucket := 1\<rparr>))"
proof -
  let ?r' = "r\<lparr>ts := s, bucket := min (length calls) N\<rparr>"
  have run: "allow_calls r calls =
           (replicate (min (length calls) N) True @ replicate (length calls - N) False, ?r')"
    using ceiling nonempty window start by (rule allow_calls_window)
  have "maxPerSec ?r' = Fin (of_nat N)"
    using ceiling by simp
  then have next_window: "\<And>t'. t' div 1000 \<noteq> s \<Longrightarrow>
      RateLimiter_allow ?r' t' = (True, ?r'\<lparr>ts := t' div 1000, bucket := 1\<rparr>)"
    using N by (intro allow_new_window) auto
  show ?thesis
    using run next_window by simp
qed

theorem RateLimiter_window_ceiling_witness:
  "fst (allow_calls (new_RateLimiter decimal_builtins (JNum (Fin 2))) [7000, 7500, 7999])
     = [True, True, False]
   \<and> bucket (snd (allow_calls (new_RateLimiter decimal_builtins (JNum (Fin 2))) [7000, 7500, 7999])) = 2
   \<and> RateLimiter_allow
        (snd (allow_calls (new_RateLimiter decimal_builtins (JNum (Fin 2))) [7000, 7500, 7999])) 8000
      = (True, \<lparr>maxPerSec = Fin 2, bucket = 1, ts = 8\<rparr>)"
proof -
  let ?r = "new_RateLimiter decimal_builtins (JNum (Fin 2))"
  have c: "maxPerSec ?r = Fin (of_nat 2)"
    by (simp add: new_RateLimiter_def num_truthy_def Let_def)
  have w: "\<forall>t \<in> set [7000, 7500, 7999 :: int]. t div 1000 = 7" by simp
  have s: "ts ?r \<noteq> 7 \<or> bucket ?r = 0" by (simp add: new_RateLimiter_def Let_def)
  have n: "[7000, 7500, 7999 :: int] \<noteq> []" by simp
  have z: "(0::nat) < 2" by simp
  note th = RateLimiter_window_ceiling [OF z c n w s]
  have final: "snd (allow_calls ?r [7000, 7500, 7999]) = \<lparr>maxPerSec = Fin 2, bucket = 2, ts = 7\<rparr>"
    by (simp add: new_RateLimiter_def num_truthy_def RateLimiter_allow_def jsnum_ge_def Let_def)
  have answers: "fst (allow_calls ?r [7000, 7500, 7999]) = [True, True, False]"
    using th by (simp del: allow_calls.simps add: numeral_2_eq_2)
  have counter: "bucket (snd (allow_calls ?r [7000, 7500, 7999])) = 2"
    using th by (simp del: allow_calls.simps)
  have "(8000::int) div 1000 \<noteq> 7" by simp
  with th have "RateLimiter_allow (snd (allow_calls ?r [7000, 7500, 7999])) 8000 =
       (True, (snd (allow_calls ?r [7000, 7500, 7999]))\<lparr>ts := 8000 div 1000, bucket := 1\<rparr>)"
    by blast
  then have again: "RateLimiter_allow (snd (allow_calls ?r [7000, 7500, 7999])) 8000 =
       (True, \<lparr>maxPerSec = Fin 2, bucket = 1, ts = 8\<rparr>)"
    by (simp only: final) simp
  show ?thesis using answers counter again by blast
qed

section \<open>Facts about the decision rules\<close>

lemmas eval_defs =
  canExecute_def canExecute2_def rules_def allow_def deny_def Let_def case_prod_beta
  new_PolicyGate_def updateConfig_def new_RateLimiter_def RateLimiter_allow_def
  mk_config_def empty_config_def clock_at_def
  cfg_rate_per_sec_def cfg_max_order_usdt_def cfg_max_staleness_ms_def
  js_or_def num_truthy_def jsnum_ge_def jsnum_gt_def
  isCloseOnly_def field_def toUpperCase_def upper_char_def is_ascii_def
  setSymbolHalt_def setGlobalHalt_def setSafeMode_def

lemma rules_frame:
  "snd (rules B g clk order) =
     g\<lparr>rateLimiter := rateLimiter (snd (rules B g clk order))\<rparr>"
  by (simp add: rules_def Let_def split: prod.splits)

lemma rules_maxPerSec:
  "maxPerSec (rateLimiter (snd (rules B g clk order))) = maxPerSec (rateLimiter g)"
  by (auto simp add: rules_def Let_def split: prod.splits dest: RateLimiter_allow_maxPerSec)

lemma rules_version:
  "policy_version (fst (rules B g clk order)) = version g"
  by (simp add: rules_def Let_def allow_def deny_def split: prod.splits)

lemma canExecute_object:
  "canExecute B g clk (OrdObject order) =
     (Inr (fst (rules B (g\<lparr>lastSnapshotAt := at_entry clk\<rparr>) clk order)),
      snd (rules B (g\<lparr>lastSnapshotAt := at_entry clk\<rparr>) clk order))"
  by (simp add: canExecute_def Let_def case_prod_beta)

lemma canExecute2_object:
  "order \<noteq> [] \<Longrightarrow>
   canExecute2 B g clk (OrdObject order) =
     (Inr (fst (rules B (g\<lparr>lastSnapshotAt := at_entry clk\<rparr>) clk order)),
      snd (rules B (g\<lparr>lastSnapshotAt := at_entry clk\<rparr>) clk order))"
  by (simp add: canExecute2_def Let_def case_prod_beta)

lemma canExecute_state:
  "snd (canExecute B g clk arg) =
     g\<lparr>lastSnapshotAt := at_entry clk,
       rateLimiter := rateLimiter (snd (canExecute B g clk arg))\<rparr>"
proof (cases arg)
  case OrdUndefined
  then show ?thesis
    using rules_frame [of B "g\<lparr>lastSnapshotAt := at_entry clk\<rparr>" clk "[]"]
    by (simp add: canExecute_def Let_def case_prod_beta)
next
  case OrdNull
  then show ?thesis by (simp add: canExecute_def)
next
  case (OrdObject order)
  then show ?thesis
    using rules_frame [of B "g\<lparr>lastSnapshotAt := at_entry clk\<rparr>" clk order]
    by (simp add: canExecute_def Let_def case_prod_beta)
qed

lemma canExecute2_state:
  "snd (canExecute2 B g clk arg) =
     g\<lparr>lastSnapshotAt := at_entry clk,
       rateLimiter := rateLimiter (snd (canExecute2 B g clk arg))\<rparr>"
proof (cases "arg = OrdNull \<or> (case arg of OrdObject ob \<Rightarrow> ob | _ \<Rightarrow> []) = []")
  case True
  then show ?thesis by (simp add: canExecute2_def Let_def)
next
  case False
  then obtain order where arg: "arg = OrdObject order" and ne: "order \<noteq> []"
    by (cases arg) auto
  show ?thesis
    using rules_frame [of B "g\<lparr>lastSnapshotAt := at_entry clk\<rparr>" clk order] arg ne
    by (simp add: canExecute2_def Let_def case_prod_beta)
qed

lemma canExecute_maxPerSec:
  "maxPerSec (rateLimiter (snd (canExecute B g clk arg))) = maxPerSec (rateLimiter g)"
proof (cases arg)
  case OrdUndefined
  then show ?thesis
    using rules_maxPerSec [of B "g\<lparr>lastSnapshotAt := at_entry clk\<rparr>" clk "[]"]
    by (simp add: canExecute_def Let_def case_prod_beta)
next
  case OrdNull
  then show ?thesis by (simp add: canExecute_def)
next
  case (OrdObject order)
  then show ?thesis
    using rules_maxPerSec [of B "g\<lparr>lastSnapshotAt := at_entry clk\<rparr>" clk order]
    by (simp add: canExecute_def Let_def case_prod_beta)
qed

lemma canExecute2_maxPerSec:
  "maxPerSec (rateLimiter (snd (canExecute2 B g clk arg))) = maxPerSec (rateLimiter g)"
proof (cases "arg = OrdNull \<or> (case arg of OrdObject ob \<Rightarrow> ob | _ \<Rightarrow> []) = []")
  case True
  then show ?thesis by (simp add: canExecute2_def Let_def)
next
  case False
  then obtain order where arg: "arg = OrdObject order" and ne: "order \<noteq> []"
    by (cases arg) auto
  show ?thesis
    using rules_maxPerSec [of B "g\<lparr>lastSnapshotAt := at_entry clk\<rparr>" clk order] arg ne
    by (simp add: canExecute2_def Let_def case_prod_beta)
qed

lemma canExecute_refreshes_timestamp:
  "lastSnapshotAt (snd (canExecute B g clk arg)) = at_entry clk"
  "lastSnapshotAt (snd (canExecute2 B g clk arg)) = at_entry clk"
  by (subst canExecute_state, simp) (subst canExecute2_state, simp)

lemma canExecute_keeps_version:
  "version (snd (canExecute B g clk arg)) = version g"
  "version (snd (canExecute2 B g clk arg)) = version g"
  by (subst canExecute_state, simp) (subst canExecute2_state, simp)

lemma canExecute_version:
  assumes "fst (canExecute B g clk arg) = Inr d"
  shows "policy_version d = version g"
  using assms rules_version [of B "g\<lparr>lastSnapshotAt := at_entry clk\<rparr>" clk]
  by (cases arg) (auto simp add: canExecute_def Let_def case_prod_beta)

lemma canExecute2_version:
  assumes "fst (canExecute2 B g clk arg) = Inr d"
  shows "policy_version d = version g"
  using assms rules_version [of B "g\<lparr>lastSnapshotAt := at_entry clk\<rparr>" clk]
  by (cases arg) (auto simp add: canExecute2_def Let_def case_prod_beta allow_def split: if_splits)

lemma isCloseOnly_nonempty: "isCloseOnly order \<Longrightarrow> order \<noteq> []"
  by (auto simp add: isCloseOnly_def field_def)

lemma rules_kill_switch:
  assumes "truthy (kill_switch (config g))"
  shows "rules B g clk order =
           (if isCloseOnly order
            then (Allow ''KILL_SWITCH_CLOSE_ONLY'' (version g) (at_decision clk + 3000), g)
            else (Deny ''KILL_SWITCH'' ''Global kill switch enabled'' (version g) (at_decision clk), g))"
  using assms by (simp add: rules_def allow_def deny_def)

lemma rules_close_only_reason:
  assumes "isCloseOnly order"
  shows "reason_code (fst (rules B g clk order)) \<in>
           {''KILL_SWITCH_CLOSE_ONLY'', ''RATE_LIMIT'', ''CLOSE_ONLY''}"
  using assms by (simp add: rules_def Let_def allow_def deny_def case_prod_beta)

text \<open>
  The rate limit is consulted for a close-only order too: with the kill switch off and
  the limiter refusing, the order is denied.
\<close>

lemma rules_rate_limit:
  assumes "\<not> truthy (kill_switch (config g))"
      and "isCloseOnly order"
      and "fst (RateLimiter_allow (rateLimiter g) (at_limiter clk)) = False"
  shows "fst (rules B g clk order) =
           Deny ''RATE_LIMIT'' ''Too many requests per second'' (version g) (at_decision clk)"
  using assms by (simp add: rules_def Let_def allow_def deny_def case_prod_beta)

text \<open>
  In the copy with the empty-order check, an empty or missing order is allowed in every
  gate state.
\<close>

lemma canExecute2_empty_order:
  assumes "arg = OrdUndefined \<or> arg = OrdNull \<or> arg = OrdObject []"
  shows "canExecute2 B g clk arg =
           (Inr (Allow ''EMPTY_ORDER_PASS'' (version g) (at_decision clk + 3000)),
            g\<lparr>lastSnapshotAt := at_entry clk\<rparr>)"
  using assms by (auto simp add: canExecute2_def allow_def)

section \<open>The decision pipeline\<close>

text \<open>
  The scenario of the specification: with \<^verbatim>\<open>rate_per_sec: 2\<close> and
  \<^verbatim>\<open>max_order_usdt: 1000\<close>, two orders of 500 in one second pass and the third is
  denied by the rate limit.
\<close>

lemma scenario_rate_limit:
  "fst (evaluations (canExecute decimal_builtins) capped_gate
         [(clock_at 1100, OrdObject [(''symbol'', JStr ''ETHUSDT''), (''side'', JStr ''buy''),
                                     (''notional'', JNum (Fin 500))]),
          (clock_at 1200, OrdObject [(''symbol'', JStr ''ETHUSDT''), (''side'', JStr ''buy''),
                                     (''notional'', JNum (Fin 500))]),
          (clock_at 1300, OrdObject [(''symbol'', JStr ''ETHUSDT''), (''side'', JStr ''buy''),
                                     (''notional'', JNum (Fin 500))])])
     = [Inr (Allow ''PASS'' (PG 1000) 4100),
        Inr (Allow ''PASS'' (PG 1000) 4200),
        Inr (Deny ''RATE_LIMIT'' ''Too many requests per second'' (PG 1000) 1300)]"
  by (simp add: capped_gate_def eval_defs)

lemma jsnum_gt_chain:
  assumes "jsnum_gt m (Fin 0)" and "jsnum_gt (Fin a) m"
  shows "0 < a"
  using assms by (cases m) (auto simp add: jsnum_gt_def)

text \<open>
  The staleness rule can only fire when the reading of the clock in the guard is later
  than the timestamp the gate holds at that point.
\<close>

lemma rules_stale_needs_elapsed:
  assumes "reason_code (fst (rules B g clk order)) = ''DATA_STALE''"
  shows "lastSnapshotAt g < at_stale clk"
proof -
  let ?m = "js_Number B (js_or (cfg_max_staleness_ms (config g)) (JNum (Fin 0)))"
  let ?age = "at_stale clk - (if lastSnapshotAt g \<noteq> 0 then lastSnapshotAt g else 0)"
  have "jsnum_gt ?m (Fin 0) \<and> jsnum_gt (Fin (of_int ?age)) ?m"
    using assms
    by (simp add: rules_def Let_def allow_def deny_def case_prod_beta split: if_splits)
  then have "(0::rat) < of_int ?age" using jsnum_gt_chain by blast
  then show ?thesis by (simp split: if_splits)
qed

text \<open>
  Both copies store the entry reading in \<^verbatim>\<open>lastSnapshotAt\<close> before the rules run, so
  the age the guard measures is the time spent inside the call: when the clock does not
  advance during the call, no decision is \<^verbatim>\<open>DATA_STALE\<close>, however long ago the previous
  evaluation was.
\<close>

lemma stale_guard_measures_the_call:
  assumes "at_stale clk \<le> at_entry clk"
  shows "\<forall>d. fst (canExecute B g clk arg) = Inr d \<longrightarrow> reason_code d \<noteq> ''DATA_STALE''"
    and "\<forall>d. fst (canExecute2 B g clk arg) = Inr d \<longrightarrow> reason_code d \<noteq> ''DATA_STALE''"
proof -
  have r: "reason_code (fst (rules B (g\<lparr>lastSnapshotAt := at_entry clk\<rparr>) clk order)) \<noteq> ''DATA_STALE''"
    for order
    using rules_stale_needs_elapsed [of B "g\<lparr>lastSnapshotAt := at_entry clk\<rparr>" clk order] assms
    by auto
  show "\<forall>d. fst (canExecute B g clk arg) = Inr d \<longrightarrow> reason_code d \<noteq> ''DATA_STALE''"
    using r by (cases arg) (auto simp add: canExecute_def Let_def case_prod_beta)
  show "\<forall>d. fst (canExecute2 B g clk arg) = Inr d \<longrightarrow> reason_code d \<noteq> ''DATA_STALE''"
    using r by (cases arg) (auto simp add: canExecute2_def Let_def case_prod_beta allow_def)
qed

text \<open>
  Claim C1. The staleness guard is meant to measure the time since the previous
  evaluation and to deny a non-close-only order with \<^verbatim>\<open>DATA_STALE\<close> when that age
  exceeds a positive \<^verbatim>\<open>max_staleness_ms\<close>. The code does not: \<open>idle_gate\<close> has a
  threshold of 1000 ms and was last evaluated at instant 0; an order evaluated at
  instant 5000, 5000 ms later, is allowed with \<^verbatim>\<open>PASS\<close> by both copies.
\<close>

theorem staleness_guard_after_idle_period:
  "cfg_max_staleness_ms (config idle_gate) = JNum (Fin 1000)
   \<and> lastSnapshotAt idle_gate = 0
   \<and> \<not> isCloseOnly [(''symbol'', JStr ''BTCUSDT''), (''side'', JStr ''buy'')]
   \<and> fst (canExecute decimal_builtins idle_gate (clock_at 5000)
            (OrdObject [(''symbol'', JStr ''BTCUSDT''), (''side'', JStr ''buy'')]))
      = Inr (Allow ''PASS'' (PG 0) 8000)
   \<and> fst (canExecute2 decimal_builtins idle_gate (clock_at 5000)
            (OrdObject [(''symbol'', JStr ''BTCUSDT''), (''side'', JStr ''buy'')]))
      = Inr (Allow ''PASS'' (PG 0) 8000)"
  by (simp add: idle_gate_def eval_defs)

text \<open>
  Claim C2, amended. With the kill switch on, every order that has at least one
  property and is not close-only is denied with \<^verbatim>\<open>KILL_SWITCH\<close>, and every close-only
  order is allowed with \<^verbatim>\<open>KILL_SWITCH_CLOSE_ONLY\<close>, by both copies. No other part of
  the gate state matters, and the call changes nothing but the timestamp (the rate
  limiter is not consulted).
\<close>

theorem kill_switch_precedence:
  assumes "truthy (kill_switch (config g))" and "order \<noteq> []"
  shows "(\<not> isCloseOnly order \<longrightarrow>
            canExecute B g clk (OrdObject order) =
              (Inr (Deny ''KILL_SWITCH'' ''Global kill switch enabled'' (version g) (at_decision clk)),
               g\<lparr>lastSnapshotAt := at_entry clk\<rparr>)
            \<and> canExecute2 B g clk (OrdObject order) =
              (Inr (Deny ''KILL_SWITCH'' ''Global kill switch enabled'' (version g) (at_decision clk)),
               g\<lparr>lastSnapshotAt := at_entry clk\<rparr>))
         \<and> (isCloseOnly order \<longrightarrow>
            canExecute B g clk (OrdObject order) =
              (Inr (Allow ''KILL_SWITCH_CLOSE_ONLY'' (version g) (at_decision clk + 3000)),
               g\<lparr>lastSnapshotAt := at_entry clk\<rparr>)
            \<and> canExecute2 B g clk (OrdObject order) =
              (Inr (Allow ''KILL_SWITCH_CLOSE_ONLY'' (version g) (at_decision clk + 3000)),
               g\<lparr>lastSnapshotAt := at_entry clk\<rparr>))"
proof -
  have k: "truthy (kill_switch (config (g\<lparr>lastSnapshotAt := at_entry clk\<rparr>)))"
    using assms(1) by simp
  show ?thesis
    using assms(2)
    by (simp add: canExecute_object canExecute2_object rules_kill_switch [OF k])
qed

theorem kill_switch_precedence_witness:
  "truthy (kill_switch (config halted_gate))
   \<and> globalHalt halted_gate \<and> safeMode halted_gate
   \<and> fst (RateLimiter_allow (rateLimiter halted_gate) 9000) = False
   \<and> fst (canExecute decimal_builtins halted_gate (clock_at 9000)
        (OrdObject [(''symbol'', JStr ''X''), (''side'', JStr ''buy''), (''notional'', JNum (Fin 50))]))
      = Inr (Deny ''KILL_SWITCH'' ''Global kill switch enabled'' (PG 0) 9000)
   \<and> fst (canExecute2 decimal_builtins halted_gate (clock_at 9000)
        (OrdObject [(''symbol'', JStr ''X''), (''side'', JStr ''buy''), (''notional'', JNum (Fin 50))]))
      = Inr (Deny ''KILL_SWITCH'' ''Global kill switch enabled'' (PG 0) 9000)
   \<and> fst (canExecute decimal_builtins halted_gate (clock_at 9000)
        (OrdObject [(''symbol'', JStr ''X''), (''side'', JStr ''sell''), (''intent'', JStr ''close'')]))
      = Inr (Allow ''KILL_SWITCH_CLOSE_ONLY'' (PG 0) 12000)
   \<and> fst (canExecute2 decimal_builtins halted_gate (clock_at 9000)
        (OrdObject [(''symbol'', JStr ''X''), (''side'', JStr ''sell''), (''intent'', JStr ''close'')]))
      = Inr (Allow ''KILL_SWITCH_CLOSE_ONLY'' (PG 0) 12000)"
proof -
  let ?open = "[(''symbol'', JStr ''X''), (''side'', JStr ''buy''), (''notional'', JNum (Fin 50))]"
  let ?close = "[(''symbol'', JStr ''X''), (''side'', JStr ''sell''), (''intent'', JStr ''close'')]"
  have k: "truthy (kill_switch (config halted_gate))"
    by (simp add: halted_gate_def eval_defs)
  have st: "globalHalt halted_gate \<and> safeMode halted_gate
      \<and> fst (RateLimiter_allow (rateLimiter halted_gate) 9000) = False"
    by (simp add: halted_gate_def eval_defs)
  have v: "version halted_gate = PG 0" by (simp add: halted_gate_def eval_defs)
  have o: "\<not> isCloseOnly ?open" and no: "?open \<noteq> []"
    by (simp_all add: isCloseOnly_def field_def)
  have c: "isCloseOnly ?close" and nc: "?close \<noteq> []"
    by (simp_all add: isCloseOnly_def field_def)
  show ?thesis
    using kill_switch_precedence [OF k no, of decimal_builtins "clock_at 9000"]
      kill_switch_precedence [OF k nc, of decimal_builtins "clock_at 9000"]
      k st o c
    by (simp add: v clock_at_def)
qed

text \<open>
  The claim as stated fails in the copy that passes empty orders: the empty order is
  not close-only, and with the kill switch on it is allowed.
\<close>

theorem kill_switch_empty_order_counterexample:
  "truthy (kill_switch (config halted_gate))
   \<and> \<not> isCloseOnly []
   \<and> fst (canExecute2 decimal_builtins halted_gate (clock_at 9000) (OrdObject []))
      = Inr (Allow ''EMPTY_ORDER_PASS'' (PG 0) 12000)"
  by (simp add: halted_gate_def eval_defs)

text \<open>
  Claim C3. A close-only order (truthy \<^verbatim>\<open>reduceOnly\<close>, \<^verbatim>\<open>closeOnly === true\<close> or
  \<^verbatim>\<open>intent === "close"\<close>) is never answered with \<^verbatim>\<open>GLOBAL_HALT\<close>, \<^verbatim>\<open>SYMBOL_HALT\<close>,
  \<^verbatim>\<open>SAFE_MODE\<close>, \<^verbatim>\<open>DATA_STALE\<close> or \<^verbatim>\<open>MAX_ORDER\<close>, in any gate state and by either copy;
  and there are gate states in which it is answered with \<^verbatim>\<open>RATE_LIMIT\<close>.
\<close>

theorem close_only_bypass:
  assumes "isCloseOnly order"
  shows "(\<exists>d. fst (canExecute B g clk (OrdObject order)) = Inr d
              \<and> reason_code d \<notin> {''GLOBAL_HALT'', ''SYMBOL_HALT'', ''SAFE_MODE'', ''DATA_STALE'', ''MAX_ORDER''})
         \<and> (\<exists>d. fst (canExecute2 B g clk (OrdObject order)) = Inr d
              \<and> reason_code d \<notin> {''GLOBAL_HALT'', ''SYMBOL_HALT'', ''SAFE_MODE'', ''DATA_STALE'', ''MAX_ORDER''})
         \<and> (\<exists>g' clk' d. fst (canExecute B g' clk' (OrdObject order)) = Inr d
              \<and> reason_code d = ''RATE_LIMIT'')
         \<and> (\<exists>g' clk' d. fst (canExecute2 B g' clk' (OrdObject order)) = Inr d
              \<and> reason_code d = ''RATE_LIMIT'')"
proof -
  let ?bad = "{''GLOBAL_HALT'', ''SYMBOL_HALT'', ''SAFE_MODE'', ''DATA_STALE'', ''MAX_ORDER''}"
  have ne: "order \<noteq> []" using assms by (rule isCloseOnly_nonempty)
  have "reason_code (fst (rules B g' clk order)) \<notin> ?bad" for g'
    using rules_close_only_reason [OF assms, of B g' clk] by auto
  then have never:
    "reason_code (fst (rules B (g\<lparr>lastSnapshotAt := at_entry clk\<rparr>) clk order)) \<notin> ?bad" .
  define g0 where
    "g0 = fresh_gate\<lparr> rateLimiter := \<lparr>maxPerSec = Fin 5, bucket = 5, ts = 0\<rparr> \<rparr>"
  let ?clk = "clock_at 0"
  have "fst (RateLimiter_allow (rateLimiter (g0\<lparr>lastSnapshotAt := at_entry ?clk\<rparr>)) (at_limiter ?clk)) = False"
    by (simp add: g0_def clock_at_def RateLimiter_allow_def jsnum_ge_def)
  moreover have "\<not> truthy (kill_switch (config (g0\<lparr>lastSnapshotAt := at_entry ?clk\<rparr>)))"
    by (simp add: g0_def fresh_gate_def new_PolicyGate_def empty_config_def Let_def)
  ultimately have
    "reason_code (fst (rules B (g0\<lparr>lastSnapshotAt := at_entry ?clk\<rparr>) ?clk order)) = ''RATE_LIMIT''"
    using rules_rate_limit [OF _ assms, of "g0\<lparr>lastSnapshotAt := at_entry ?clk\<rparr>" ?clk B] by simp
  then have some:
    "\<exists>g' clk'. reason_code (fst (rules B (g'\<lparr>lastSnapshotAt := at_entry clk'\<rparr>) clk' order)) = ''RATE_LIMIT''"
    by blast
  show ?thesis
    using never some ne by (simp add: canExecute_object canExecute2_object)
qed

theorem close_only_bypass_witness:
  "isCloseOnly [(''symbol'', JStr ''X''), (''side'', JStr ''sell''), (''reduceOnly'', JBool True),
                (''notional'', JNum (Fin 50))]
   \<and> globalHalt guarded_gate \<and> safeMode guarded_gate \<and> ''X'' \<in> symbolHalt guarded_gate
   \<and> fst (canExecute decimal_builtins guarded_gate (clock_at 500)
        (OrdObject [(''symbol'', JStr ''X''), (''side'', JStr ''sell''), (''reduceOnly'', JBool True),
                    (''notional'', JNum (Fin 50))]))
      = Inr (Allow ''CLOSE_ONLY'' (PG 0) 3500)
   \<and> ''CLOSE_ONLY'' \<notin> {''GLOBAL_HALT'', ''SYMBOL_HALT'', ''SAFE_MODE'', ''DATA_STALE'', ''MAX_ORDER''}
   \<and> fst (canExecute decimal_builtins
            (snd (canExecute decimal_builtins guarded_gate (clock_at 500)
               (OrdObject [(''symbol'', JStr ''X''), (''side'', JStr ''sell''), (''reduceOnly'', JBool True),
                           (''notional'', JNum (Fin 50))])))
            (clock_at 600)
            (OrdObject [(''symbol'', JStr ''X''), (''side'', JStr ''sell''), (''reduceOnly'', JBool True),
                        (''notional'', JNum (Fin 50))]))
      = Inr (Deny ''RATE_LIMIT'' ''Too many requests per second'' (PG 0) 600)"
proof -
  let ?order = "[(''symbol'', JStr ''X''), (''side'', JStr ''sell''), (''reduceOnly'', JBool True),
                 (''notional'', JNum (Fin 50))]"
  have c: "isCloseOnly ?order" by (simp add: isCloseOnly_def field_def)
  have st: "globalHalt guarded_gate \<and> safeMode guarded_gate \<and> ''X'' \<in> symbolHalt guarded_gate"
    by (simp add: guarded_gate_def eval_defs)
  have first: "fst (canExecute decimal_builtins guarded_gate (clock_at 500) (OrdObject ?order))
      = Inr (Allow ''CLOSE_ONLY'' (PG 0) 3500)"
    by (simp add: guarded_gate_def eval_defs)
  have second: "fst (canExecute decimal_builtins
            (snd (canExecute decimal_builtins guarded_gate (clock_at 500) (OrdObject ?order)))
            (clock_at 600) (OrdObject ?order))
      = Inr (Deny ''RATE_LIMIT'' ''Too many requests per second'' (PG 0) 600)"
    by (simp add: guarded_gate_def eval_defs)
  have "\<exists>d. fst (canExecute decimal_builtins guarded_gate (clock_at 500) (OrdObject ?order)) = Inr d
          \<and> reason_code d \<notin> {''GLOBAL_HALT'', ''SYMBOL_HALT'', ''SAFE_MODE'', ''DATA_STALE'', ''MAX_ORDER''}"
    using close_only_bypass [OF c, of decimal_builtins guarded_gate "clock_at 500"] by blast
  then have "''CLOSE_ONLY'' \<notin> {''GLOBAL_HALT'', ''SYMBOL_HALT'', ''SAFE_MODE'', ''DATA_STALE'', ''MAX_ORDER''}"
    unfolding first by (metis Inr_inject decision.sel(1))
  then show ?thesis using c st first second by simp
qed

text \<open>
  Claim C4. An empty or missing order is meant to be allowed in every gate state. In
  gate.js it goes through the rules like any order that is not close-only: with the
  kill switch on, the empty order and the missing order are denied with
  \<^verbatim>\<open>KILL_SWITCH\<close>, and \<open>null\<close> throws. The other copy of the class allows the empty
  order in the same state.
\<close>

theorem empty_order_denied_by_kill_switch:
  "fst (canExecute decimal_builtins kill_gate (clock_at 1000) (OrdObject []))
     = Inr (Deny ''KILL_SWITCH'' ''Global kill switch enabled'' (PG 0) 1000)
   \<and> fst (canExecute decimal_builtins kill_gate (clock_at 1000) OrdUndefined)
     = Inr (Deny ''KILL_SWITCH'' ''Global kill switch enabled'' (PG 0) 1000)
   \<and> fst (canExecute decimal_builtins kill_gate (clock_at 1000) OrdNull) = Inl TypeError
   \<and> fst (canExecute2 decimal_builtins kill_gate (clock_at 1000) (OrdObject []))
     = Inr (Allow ''EMPTY_ORDER_PASS'' (PG 0) 4000)"
  by (simp add: kill_gate_def eval_defs)

section \<open>Configuration and versions\<close>

text \<open>
  Claim C6, amended. A configured ceiling of 0 is replaced by the default: the limiter
  built for it is the limiter built for 5, its ceiling is 5, and in one second it admits
  five calls and no more (it is neither unlimited nor closed to every request).
\<close>

theorem zero_ceiling_is_default:
  assumes "cfg_rate_per_sec cfg = JNum (Fin 0)"
      and "calls \<noteq> []" and "\<forall>t \<in> set calls. t div 1000 = s"
  shows "rateLimiter (new_PolicyGate B (Some cfg) ta tb tc) = new_RateLimiter B (JNum (Fin 5))
         \<and> rateLimiter (updateConfig B g (Some cfg) t) = new_RateLimiter B (JNum (Fin 5))
         \<and> new_RateLimiter B (JNum (Fin 0)) = new_RateLimiter B (JNum (Fin 5))
         \<and> maxPerSec (new_RateLimiter B (JNum (Fin 5))) = Fin 5
         \<and> fst (allow_calls (rateLimiter (new_PolicyGate B (Some cfg) ta tb tc)) calls) =
             replicate (min (length calls) 5) True @ replicate (length calls - 5) False"
proof -
  let ?r = "new_RateLimiter B (JNum (Fin 5))"
  have r: "?r = \<lparr>maxPerSec = Fin 5, bucket = 0, ts = 0\<rparr>"
    by (simp add: new_RateLimiter_def num_truthy_def Let_def)
  have built: "rateLimiter (new_PolicyGate B (Some cfg) ta tb tc) = ?r"
    using assms(1) by (simp add: new_PolicyGate_def new_RateLimiter_def js_or_def num_truthy_def Let_def)
  have updated: "rateLimiter (updateConfig B g (Some cfg) t) = ?r"
    using assms(1) by (simp add: updateConfig_def new_RateLimiter_def js_or_def num_truthy_def Let_def)
  have zero: "new_RateLimiter B (JNum (Fin 0)) = ?r"
    by (simp add: new_RateLimiter_def num_truthy_def Let_def)
  have "maxPerSec ?r = Fin (of_nat 5)" and "ts ?r \<noteq> s \<or> bucket ?r = 0"
    by (simp_all add: r)
  then have "allow_calls ?r calls =
           (replicate (min (length calls) 5) True @ replicate (length calls - 5) False,
            ?r\<lparr>ts := s, bucket := min (length calls) 5\<rparr>)"
    using assms(2,3) by (intro allow_calls_window) auto
  then show ?thesis using built updated zero r by simp
qed

theorem zero_ceiling_is_default_witness:
  "cfg_rate_per_sec (mk_config JUndefined (JNum (Fin 0)) JUndefined JUndefined) = JNum (Fin 0)
   \<and> rateLimiter (new_PolicyGate decimal_builtins
                     (Some (mk_config JUndefined (JNum (Fin 0)) JUndefined JUndefined)) 0 0 0)
       = \<lparr>maxPerSec = Fin 5, bucket = 0, ts = 0\<rparr>
   \<and> fst (allow_calls (rateLimiter (new_PolicyGate decimal_builtins
                     (Some (mk_config JUndefined (JNum (Fin 0)) JUndefined JUndefined)) 0 0 0))
             [1000, 1001, 1002, 1003, 1004, 1005])
       = [True, True, True, True, True, False]"
proof -
  let ?cfg = "mk_config JUndefined (JNum (Fin 0)) JUndefined JUndefined"
  let ?calls = "[1000, 1001, 1002, 1003, 1004, 1005 :: int]"
  have h: "cfg_rate_per_sec ?cfg = JNum (Fin 0)"
    by (simp add: mk_config_def cfg_rate_per_sec_def)
  have n: "?calls \<noteq> []" by simp
  have w: "\<forall>t \<in> set ?calls. t div 1000 = 1" by simp
  have d: "new_RateLimiter decimal_builtins (JNum (Fin 5)) = \<lparr>maxPerSec = Fin 5, bucket = 0, ts = 0\<rparr>"
    by (simp add: new_RateLimiter_def num_truthy_def Let_def)
  note th = zero_ceiling_is_default [OF h n w,
      where B = decimal_builtins and ta = 0 and tb = 0 and tc = 0 and g = fresh_gate and t = 0]
  have r: "rateLimiter (new_PolicyGate decimal_builtins (Some ?cfg) 0 0 0)
             = \<lparr>maxPerSec = Fin 5, bucket = 0, ts = 0\<rparr>"
    using th d by simp
  have "fst (allow_calls (rateLimiter (new_PolicyGate decimal_builtins (Some ?cfg) 0 0 0)) ?calls)
             = replicate (min (length ?calls) 5) True @ replicate (length ?calls - 5) False"
    using th by (elim conjE)
  then have a: "fst (allow_calls (rateLimiter (new_PolicyGate decimal_builtins (Some ?cfg) 0 0 0)) ?calls)
             = [True, True, True, True, True, False]"
    by (simp del: allow_calls.simps add: eval_nat_numeral)
  show ?thesis using h r a by simp
qed

text \<open>
  The claim as stated fails for a negative ceiling: it is kept, and every call is
  refused, where the default limiter admits.
\<close>

theorem negative_ceiling_counterexample:
  "rateLimiter (new_PolicyGate decimal_builtins
                  (Some (mk_config JUndefined (JNum (Fin (- 1))) JUndefined JUndefined)) 0 0 0)
     = \<lparr>maxPerSec = Fin (- 1), bucket = 0, ts = 0\<rparr>
   \<and> fst (allow_calls (rateLimiter (new_PolicyGate decimal_builtins
                  (Some (mk_config JUndefined (JNum (Fin (- 1))) JUndefined JUndefined)) 0 0 0))
            [1000, 2000, 3000])
     = [False, False, False]
   \<and> fst (allow_calls (new_RateLimiter decimal_builtins (JNum (Fin 5))) [1000, 2000, 3000])
     = [True, True, True]
   \<and> fst (canExecute decimal_builtins
            (new_PolicyGate decimal_builtins
               (Some (mk_config JUndefined (JNum (Fin (- 1))) JUndefined JUndefined)) 0 0 0)
            (clock_at 1000) (OrdObject [(''symbol'', JStr ''ETHUSDT''), (''side'', JStr ''buy'')]))
     = Inr (Deny ''RATE_LIMIT'' ''Too many requests per second'' (PG 0) 1000)"
  by (simp add: eval_defs)

lemma negative_ceiling_refuses_every_call:
  assumes "maxPerSec r = Fin c" and "c < 0"
  shows "fst (RateLimiter_allow r t) = False"
  using assms by (simp add: RateLimiter_allow_def jsnum_ge_def Let_def)

lemma evaluations_version:
  assumes "\<And>g clk arg d. fst (ev g clk arg) = Inr d \<Longrightarrow> policy_version d = version g"
      and "\<And>g clk arg. version (snd (ev g clk arg)) = version g"
      and "Inr d \<in> set (fst (evaluations ev g runs))"
  shows "policy_version d = version g"
  using assms(3)
proof (induction runs arbitrary: g)
  case Nil
  then show ?case by simp
next
  case (Cons run rest)
  obtain clk arg where run: "run = (clk, arg)" by (cases run)
  from Cons.prems have "Inr d = fst (ev g clk arg)
      \<or> Inr d \<in> set (fst (evaluations ev (snd (ev g clk arg)) rest))"
    by (simp add: run case_prod_beta)
  then show ?case
  proof
    assume "Inr d = fst (ev g clk arg)"
    then show ?thesis using assms(1) [of g clk arg d] by simp
  next
    assume "Inr d \<in> set (fst (evaluations ev (snd (ev g clk arg)) rest))"
    then have "policy_version d = version (snd (ev g clk arg))" by (rule Cons.IH)
    then show ?thesis by (simp add: assms(2))
  qed
qed

text \<open>
  Claim C7, amended. Replacing the configuration at instant \<open>t\<close> sets the version to
  the one stamped from \<open>t\<close>, so the version changes whenever it was not already the
  one of that instant; an evaluation never changes the version, and every decision of
  a run of evaluations (allow or deny) carries the version of the gate the run started
  from.
\<close>

theorem version_stamping:
  "version (updateConfig B g newCfg t) = PG t
   \<and> (version g \<noteq> PG t \<longrightarrow> version (updateConfig B g newCfg t) \<noteq> version g)
   \<and> (\<forall>d. Inr d \<in> set (fst (evaluations (canExecute B) g runs)) \<longrightarrow> policy_version d = version g)
   \<and> (\<forall>d. Inr d \<in> set (fst (evaluations (canExecute2 B) g runs)) \<longrightarrow> policy_version d = version g)
   \<and> version (snd (evaluations (canExecute B) g runs)) = version g
   \<and> version (snd (evaluations (canExecute2 B) g runs)) = version g"
proof -
  have u: "version (updateConfig B g newCfg t) = PG t"
    by (simp add: updateConfig_def Let_def)
  have e1: "policy_version d = version g"
    if "Inr d \<in> set (fst (evaluations (canExecute B) g runs))" for d
    using that
    by (rule evaluations_version [rotated 2])
      (simp_all add: canExecute_version canExecute_keeps_version)
  have e2: "policy_version d = version g"
    if "Inr d \<in> set (fst (evaluations (canExecute2 B) g runs))" for d
    using that
    by (rule evaluations_version [rotated 2])
      (simp_all add: canExecute2_version canExecute_keeps_version)
  have k1: "version (snd (evaluations (canExecute B) g' runs)) = version g'" for g'
    by (induction runs arbitrary: g') (auto simp add: case_prod_beta canExecute_keeps_version)
  have k2: "version (snd (evaluations (canExecute2 B) g' runs)) = version g'" for g'
    by (induction runs arbitrary: g') (auto simp add: case_prod_beta canExecute_keeps_version)
  show ?thesis using u e1 e2 k1 k2 by simp
qed

theorem version_stamping_witness:
  "version capped_gate \<noteq> PG 2000
   \<and> version (updateConfig decimal_builtins capped_gate None 2000) \<noteq> version capped_gate
   \<and> fst (evaluations (canExecute decimal_builtins) capped_gate two_orders)
       = [Inr (Allow ''PASS'' (PG 1000) 4100),
          Inr (Deny ''MAX_ORDER'' ''Notional 5000 > 1000'' (PG 1000) 1200)]
   \<and> policy_version (Allow ''PASS'' (PG 1000) 4100) = version capped_gate
   \<and> policy_version (Deny ''MAX_ORDER'' ''Notional 5000 > 1000'' (PG 1000) 1200) = version capped_gate
   \<and> fst (evaluations (canExecute2 decimal_builtins) capped_gate two_orders)
       = [Inr (Allow ''PASS'' (PG 1000) 4100),
          Inr (Deny ''MAX_ORDER'' ''Notional 5000 > 1000'' (PG 1000) 1200)]"
proof -
  note th = version_stamping [of decimal_builtins capped_gate None 2000 two_orders]
  have v: "version capped_gate \<noteq> PG 2000"
    by (simp add: capped_gate_def new_PolicyGate_def Let_def)
  have changed: "version (updateConfig decimal_builtins capped_gate None 2000) \<noteq> version capped_gate"
    using th v by blast
  have run1: "fst (evaluations (canExecute decimal_builtins) capped_gate two_orders)
       = [Inr (Allow ''PASS'' (PG 1000) 4100),
          Inr (Deny ''MAX_ORDER'' ''Notional 5000 > 1000'' (PG 1000) 1200)]"
    by (simp add: capped_gate_def two_orders_def eval_defs decimal_builtins_def show_int_def
        show_nat.simps)
  have run2: "fst (evaluations (canExecute2 decimal_builtins) capped_gate two_orders)
       = [Inr (Allow ''PASS'' (PG 1000) 4100),
          Inr (Deny ''MAX_ORDER'' ''Notional 5000 > 1000'' (PG 1000) 1200)]"
    by (simp add: capped_gate_def two_orders_def eval_defs decimal_builtins_def show_int_def
        show_nat.simps)
  have "policy_version d = version capped_gate"
    if "Inr d \<in> set (fst (evaluations (canExecute decimal_builtins) capped_gate two_orders))" for d
    using th that by blast
  then have stamped: "policy_version (Allow ''PASS'' (PG 1000) 4100) = version capped_gate
      \<and> policy_version (Deny ''MAX_ORDER'' ''Notional 5000 > 1000'' (PG 1000) 1200) = version capped_gate"
    unfolding run1 by (metis list.set_intros(1,2))
  show ?thesis using v changed run1 run2 stamped by simp
qed

text \<open>
  The claim as stated fails when the configuration is replaced within the millisecond
  in which the current version was stamped: the decision before and the decision after
  the replacement carry the same version.
\<close>

theorem version_same_instant_counterexample:
  "fst (canExecute decimal_builtins capped_gate (clock_at 1000)
          (OrdObject [(''symbol'', JStr ''ETHUSDT''), (''side'', JStr ''buy'')]))
     = Inr (Allow ''PASS'' (PG 1000) 4000)
   \<and> fst (canExecute decimal_builtins
            (updateConfig decimal_builtins
               (snd (canExecute decimal_builtins capped_gate (clock_at 1000)
                       (OrdObject [(''symbol'', JStr ''ETHUSDT''), (''side'', JStr ''buy'')])))
               (Some (mk_config (JBool False) (JNum (Fin 9)) JUndefined JUndefined)) 1000)
            (clock_at 1000)
            (OrdObject [(''symbol'', JStr ''ETHUSDT''), (''side'', JStr ''buy'')]))
     = Inr (Allow ''PASS'' (PG 1000) 4000)"
  by (simp add: capped_gate_def eval_defs)

section \<open>Symbol halts\<close>

lemma map_of_zip_left:
  assumes "distinct ls" and "(a, b) \<in> set (zip ls us)"
  shows "map_of (zip ls us) a = Some b"
proof -
  have "distinct (map fst (zip ls us))"
    using assms(1) by (simp add: map_fst_zip_take)
  then show ?thesis using assms(2) by simp
qed

lemma map_of_zip_right:
  assumes "set ls \<inter> set us = {}" and "(a, b) \<in> set (zip ls us)"
  shows "map_of (zip ls us) b = None"
proof -
  have "b \<in> set us" using assms(2) by (rule set_zip_rightD)
  then have "b \<notin> set ls" using assms(1) by blast
  then have "b \<notin> fst ` set (zip ls us)"
    by (auto dest: set_zip_leftD)
  then show ?thesis by (simp add: map_of_eq_None_iff)
qed

lemma letters_distinct: "distinct ''abcdefghijklmnopqrstuvwxyz''"
  by simp

lemma letters_disjoint:
  "set ''abcdefghijklmnopqrstuvwxyz'' \<inter> set ''ABCDEFGHIJKLMNOPQRSTUVWXYZ'' = {}"
  by simp

lemma upper_char_lower:
  assumes "(a, b) \<in> set (zip ''abcdefghijklmnopqrstuvwxyz'' ''ABCDEFGHIJKLMNOPQRSTUVWXYZ'')"
  shows "upper_char a = b"
  unfolding upper_char_def
  by (simp only: map_of_zip_left [OF letters_distinct assms] option.case)

lemma upper_char_upper:
  assumes "(a, b) \<in> set (zip ''abcdefghijklmnopqrstuvwxyz'' ''ABCDEFGHIJKLMNOPQRSTUVWXYZ'')"
  shows "upper_char b = b"
  unfolding upper_char_def
  by (simp only: map_of_zip_right [OF letters_disjoint assms] option.case)

lemma upper_char_same_letter:
  assumes "same_letter a b"
  shows "upper_char a = upper_char b"
proof -
  consider "a = b"
    | "(a, b) \<in> set (zip ''abcdefghijklmnopqrstuvwxyz'' ''ABCDEFGHIJKLMNOPQRSTUVWXYZ'')"
    | "(b, a) \<in> set (zip ''abcdefghijklmnopqrstuvwxyz'' ''ABCDEFGHIJKLMNOPQRSTUVWXYZ'')"
    using assms unfolding same_letter_def by blast
  then show ?thesis
  proof cases
    case 1
    then show ?thesis by simp
  next
    case 2
    show ?thesis by (simp only: upper_char_lower [OF 2] upper_char_upper [OF 2])
  next
    case 3
    show ?thesis by (simp only: upper_char_lower [OF 3] upper_char_upper [OF 3])
  qed
qed

lemma capitals_ascii: "\<forall>c \<in> set ''ABCDEFGHIJKLMNOPQRSTUVWXYZ''. is_ascii c"
  by (simp add: is_ascii_def)

lemma smalls_ascii: "\<forall>c \<in> set ''abcdefghijklmnopqrstuvwxyz''. is_ascii c"
  by (simp add: is_ascii_def)

lemma same_letter_ascii:
  assumes "same_letter a b" and "is_ascii a"
  shows "is_ascii b"
proof -
  consider "a = b"
    | "(a, b) \<in> set (zip ''abcdefghijklmnopqrstuvwxyz'' ''ABCDEFGHIJKLMNOPQRSTUVWXYZ'')"
    | "(b, a) \<in> set (zip ''abcdefghijklmnopqrstuvwxyz'' ''ABCDEFGHIJKLMNOPQRSTUVWXYZ'')"
    using assms(1) unfolding same_letter_def by blast
  then show ?thesis
  proof cases
    case 1
    then show ?thesis using assms(2) by simp
  next
    case 2
    then have "b \<in> set ''ABCDEFGHIJKLMNOPQRSTUVWXYZ''" by (rule set_zip_rightD)
    then show ?thesis using capitals_ascii by blast
  next
    case 3
    then have "b \<in> set ''abcdefghijklmnopqrstuvwxyz''" by (rule set_zip_leftD)
    then show ?thesis using smalls_ascii by blast
  qed
qed

lemma differs_only_in_case_ascii:
  "differs_only_in_case s t \<Longrightarrow> list_all is_ascii s \<Longrightarrow> list_all is_ascii t"
  unfolding differs_only_in_case_def
  by (induction s t rule: list_all2_induct) (auto dest: same_letter_ascii)

lemma map_upper_char_differs_only_in_case:
  "differs_only_in_case s t \<Longrightarrow> map upper_char s = map upper_char t"
  unfolding differs_only_in_case_def
  by (induction s t rule: list_all2_induct) (simp_all add: upper_char_same_letter)

lemma toUpperCase_ascii:
  "list_all is_ascii s \<Longrightarrow> toUpperCase B s = map upper_char s"
  by (simp add: toUpperCase_def)

lemma setSymbolHalt_on:
  assumes "s \<noteq> []" and "toUpperCase B s \<noteq> []" and "truthy on"
  shows "setSymbolHalt B g (JStr s) on =
           g\<lparr>symbolHalt := insert (toUpperCase B s) (symbolHalt g)\<rparr>"
  using assms by (simp add: setSymbolHalt_def js_or_def)

lemma rules_symbol_halt:
  assumes "\<not> truthy (kill_switch (config g))" and "\<not> globalHalt g" and "\<not> isCloseOnly order"
      and "field order ''symbol'' = JStr s'" and "s' \<noteq> []"
      and "toUpperCase B s' \<noteq> []" and "toUpperCase B s' \<in> symbolHalt g"
  shows "rules B g clk order =
           (Deny ''SYMBOL_HALT'' (''Symbol '' @ toUpperCase B s' @ '' halted'') (version g)
              (at_decision clk), g)"
  using assms by (simp add: rules_def Let_def js_or_def deny_def)

text \<open>
  Claim C8, amended. Symbol halting is case-insensitive on ASCII symbols: for every
  non-empty symbol string \<open>s\<close> of ASCII characters and every order that is not
  close-only and whose symbol \<open>s'\<close> differs from \<open>s\<close> only in letter case, after
  \<^verbatim>\<open>setSymbolHalt(s, true)\<close> and with the kill switch and the global halt off, the order
  is denied with \<^verbatim>\<open>SYMBOL_HALT\<close>, and the detail names the upper-case form of the
  symbol, which is \<open>s\<close> with its letters in capitals.
\<close>

theorem symbol_halt_case_insensitive:
  assumes "s \<noteq> []"
      and "list_all is_ascii s"
      and "differs_only_in_case s s'"
      and "field order ''symbol'' = JStr s'"
      and "\<not> isCloseOnly order"
      and "\<not> truthy (kill_switch (config g))"
      and "\<not> globalHalt g"
      and "truthy on"
  shows "fst (canExecute B (setSymbolHalt B g (JStr s) on) clk (OrdObject order)) =
           Inr (Deny ''SYMBOL_HALT'' (''Symbol '' @ toUpperCase B s' @ '' halted'') (version g)
                  (at_decision clk))
         \<and> fst (canExecute2 B (setSymbolHalt B g (JStr s) on) clk (OrdObject order)) =
           Inr (Deny ''SYMBOL_HALT'' (''Symbol '' @ toUpperCase B s' @ '' halted'') (version g)
                  (at_decision clk))
         \<and> toUpperCase B s' = map upper_char s
         \<and> toUpperCase B s = map upper_char s"
proof -
  let ?g = "(setSymbolHalt B g (JStr s) on)\<lparr>lastSnapshotAt := at_entry clk\<rparr>"
  have ascii': "list_all is_ascii s'"
    using assms(3,2) by (rule differs_only_in_case_ascii)
  have us: "toUpperCase B s = map upper_char s"
    using assms(2) by (rule toUpperCase_ascii)
  have "toUpperCase B s' = map upper_char s'"
    using ascii' by (rule toUpperCase_ascii)
  then have us': "toUpperCase B s' = map upper_char s"
    using map_upper_char_differs_only_in_case [OF assms(3)] by simp
  have ne_up: "toUpperCase B s \<noteq> []" "toUpperCase B s' \<noteq> []"
    using assms(1) by (simp_all add: us us')
  have s': "s' \<noteq> []"
    using assms(1,3) by (auto simp add: differs_only_in_case_def)
  note set_on = setSymbolHalt_on [OF assms(1) ne_up(1) assms(8)]
  have halted: "toUpperCase B s' \<in> symbolHalt ?g"
    by (simp add: set_on us us')
  have rest: "\<not> truthy (kill_switch (config ?g))" "\<not> globalHalt ?g" "version ?g = version g"
    using assms(6,7) by (simp_all add: set_on)
  have ne: "order \<noteq> []"
    using assms(4) by (auto simp add: field_def)
  have "fst (rules B ?g clk order) =
          Deny ''SYMBOL_HALT'' (''Symbol '' @ toUpperCase B s' @ '' halted'') (version g)
            (at_decision clk)"
    using rules_symbol_halt [OF rest(1) rest(2) assms(5) assms(4) s' ne_up(2) halted, of clk] rest(3)
    by simp
  then show ?thesis
    using ne us us' by (simp add: canExecute_object canExecute2_object)
qed

theorem symbol_halt_case_insensitive_witness:
  "''btcusdt'' \<noteq> []
   \<and> list_all is_ascii ''btcusdt''
   \<and> differs_only_in_case ''btcusdt'' ''BtcUSDT''
   \<and> fst (canExecute decimal_builtins
            (setSymbolHalt decimal_builtins fresh_gate (JStr ''btcusdt'') (JBool True))
            (clock_at 1000)
            (OrdObject [(''symbol'', JStr ''BtcUSDT''), (''side'', JStr ''buy'')]))
      = Inr (Deny ''SYMBOL_HALT'' ''Symbol BTCUSDT halted'' (PG 0) 1000)
   \<and> fst (canExecute2 decimal_builtins
            (setSymbolHalt decimal_builtins fresh_gate (JStr ''btcusdt'') (JBool True))
            (clock_at 1000)
            (OrdObject [(''symbol'', JStr ''BtcUSDT''), (''side'', JStr ''buy'')]))
      = Inr (Deny ''SYMBOL_HALT'' ''Symbol BTCUSDT halted'' (PG 0) 1000)"
proof -
  let ?order = "[(''symbol'', JStr ''BtcUSDT''), (''side'', JStr ''buy'')]"
  have 1: "''btcusdt'' \<noteq> []" by simp
  have a: "list_all is_ascii ''btcusdt''" by (simp add: is_ascii_def)
  have 2: "differs_only_in_case ''btcusdt'' ''BtcUSDT''"
    by (simp add: differs_only_in_case_def same_letter_def)
  have 3: "field ?order ''symbol'' = JStr ''BtcUSDT''" by (simp add: field_def)
  have 4: "\<not> isCloseOnly ?order" by (simp add: isCloseOnly_def field_def)
  have 5: "\<not> truthy (kill_switch (config fresh_gate))"
    by (simp add: fresh_gate_def new_PolicyGate_def empty_config_def Let_def)
  have 6: "\<not> globalHalt fresh_gate"
    by (simp add: fresh_gate_def new_PolicyGate_def Let_def)
  have 7: "truthy (JBool True)" by simp
  have v: "version fresh_gate = PG 0"
    by (simp add: fresh_gate_def new_PolicyGate_def Let_def)
  have u: "toUpperCase decimal_builtins ''BtcUSDT'' = ''BTCUSDT''"
    by (simp add: toUpperCase_def upper_char_def is_ascii_def)
  note th = symbol_halt_case_insensitive [OF 1 a 2 3 4 5 6 7, of decimal_builtins "clock_at 1000"]
  have "fst (canExecute decimal_builtins
               (setSymbolHalt decimal_builtins fresh_gate (JStr ''btcusdt'') (JBool True))
               (clock_at 1000) (OrdObject ?order)) =
          Inr (Deny ''SYMBOL_HALT'' (''Symbol '' @ toUpperCase decimal_builtins ''BtcUSDT'' @ '' halted'')
                 (version fresh_gate) (at_decision (clock_at 1000)))"
    using th by (elim conjE)
  then have d1: "fst (canExecute decimal_builtins
               (setSymbolHalt decimal_builtins fresh_gate (JStr ''btcusdt'') (JBool True))
               (clock_at 1000) (OrdObject ?order)) =
          Inr (Deny ''SYMBOL_HALT'' ''Symbol BTCUSDT halted'' (PG 0) 1000)"
    by (simp add: v u clock_at_def)
  have "fst (canExecute2 decimal_builtins
               (setSymbolHalt decimal_builtins fresh_gate (JStr ''btcusdt'') (JBool True))
               (clock_at 1000) (OrdObject ?order)) =
          Inr (Deny ''SYMBOL_HALT'' (''Symbol '' @ toUpperCase decimal_builtins ''BtcUSDT'' @ '' halted'')
                 (version fresh_gate) (at_decision (clock_at 1000)))"
    using th by (elim conjE)
  then have d2: "fst (canExecute2 decimal_builtins
               (setSymbolHalt decimal_builtins fresh_gate (JStr ''btcusdt'') (JBool True))
               (clock_at 1000) (OrdObject ?order)) =
          Inr (Deny ''SYMBOL_HALT'' ''Symbol BTCUSDT halted'' (PG 0) 1000)"
    by (simp add: v u clock_at_def)
  show ?thesis
    by (intro conjI 1 a 2 d1 d2)
qed

text \<open>
  The claim as stated fails for the empty string: halting it changes nothing, and an
  order whose symbol is the empty string passes.
\<close>

theorem symbol_halt_empty_symbol_counterexample:
  "differs_only_in_case [] []
   \<and> \<not> isCloseOnly [(''symbol'', JStr []), (''side'', JStr ''buy'')]
   \<and> \<not> truthy (kill_switch (config fresh_gate)) \<and> \<not> globalHalt fresh_gate
   \<and> fst (canExecute decimal_builtins
            (setSymbolHalt decimal_builtins fresh_gate (JStr []) (JBool True))
            (clock_at 1000)
            (OrdObject [(''symbol'', JStr []), (''side'', JStr ''buy'')]))
      = Inr (Allow ''PASS'' (PG 0) 4000)
   \<and> fst (canExecute2 decimal_builtins
            (setSymbolHalt decimal_builtins fresh_gate (JStr []) (JBool True))
            (clock_at 1000)
            (OrdObject [(''symbol'', JStr []), (''side'', JStr ''buy'')]))
      = Inr (Allow ''PASS'' (PG 0) 4000)"
  by (simp add: fresh_gate_def differs_only_in_case_def eval_defs)

text \<open>
  Outside ASCII the upper-case forms of two strings that differ only in letter case can
  differ. The small sharp s (bytes C3 9F) is upper-cased to \<^verbatim>\<open>SS\<close> and the capital
  sharp s (bytes E1 BA 9E) to itself; in a runtime that does so, halting the one does
  not stop an order for the other.
\<close>

lemma symbol_halt_sharp_s:
  assumes "upper_other B [CHR 0xC3, CHR 0x9F] = ''SS''"
      and "upper_other B [CHR 0xE1, CHR 0xBA, CHR 0x9E] = [CHR 0xE1, CHR 0xBA, CHR 0x9E]"
  shows "fst (canExecute B
                (setSymbolHalt B fresh_gate (JStr [CHR 0xC3, CHR 0x9F]) (JBool True)) clk
                (OrdObject [(''symbol'', JStr [CHR 0xE1, CHR 0xBA, CHR 0x9E]), (''side'', JStr ''buy'')]))
           = Inr (Allow ''PASS'' (PG 0) (at_decision clk + 3000))"
  using assms by (simp add: fresh_gate_def eval_defs)

text \<open>
  Claim C9, amended. \<^verbatim>\<open>setSymbolHalt\<close> with the empty string as symbol leaves the gate
  as it is, the halted set and every other field, whether the flag is on or off.
\<close>

theorem setSymbolHalt_empty_noop:
  "setSymbolHalt B g (JStr []) on = g"
  by (simp add: setSymbolHalt_def js_or_def toUpperCase_def)

text \<open>
  The claim as stated fails for a symbol of blanks: it is not trimmed, so it is added
  to the halted set, and an order with that symbol is then denied.
\<close>

theorem setSymbolHalt_blank_counterexample:
  "symbolHalt fresh_gate = {}
   \<and> symbolHalt (setSymbolHalt decimal_builtins fresh_gate (JStr ''  '') (JBool True)) = {''  ''}
   \<and> setSymbolHalt decimal_builtins fresh_gate (JStr ''  '') (JBool True) \<noteq> fresh_gate
   \<and> fst (canExecute decimal_builtins
            (setSymbolHalt decimal_builtins fresh_gate (JStr ''  '') (JBool True))
            (clock_at 1000) (OrdObject [(''symbol'', JStr ''  ''), (''side'', JStr ''buy'')]))
      = Inr (Deny ''SYMBOL_HALT'' ''Symbol    halted'' (PG 0) 1000)"
  by (simp add: fresh_gate_def eval_defs)

section \<open>What an evaluation changes\<close>

text \<open>
  Claim C10. An evaluation changes only the gate's timestamp and the limiter's counter
  and window: the configuration, the version, the global-halt flag, the safe-mode flag,
  the halted symbols, the start instant and the limiter's ceiling are those of the gate
  before the call, for every argument and every decision, in both copies.
\<close>

theorem canExecute_frame:
  "config (snd (canExecute B g clk arg)) = config g
   \<and> version (snd (canExecute B g clk arg)) = version g
   \<and> globalHalt (snd (canExecute B g clk arg)) = globalHalt g
   \<and> safeMode (snd (canExecute B g clk arg)) = safeMode g
   \<and> symbolHalt (snd (canExecute B g clk arg)) = symbolHalt g
   \<and> startedAt (snd (canExecute B g clk arg)) = startedAt g
   \<and> maxPerSec (rateLimiter (snd (canExecute B g clk arg))) = maxPerSec (rateLimiter g)
   \<and> config (snd (canExecute2 B g clk arg)) = config g
   \<and> version (snd (canExecute2 B g clk arg)) = version g
   \<and> globalHalt (snd (canExecute2 B g clk arg)) = globalHalt g
   \<and> safeMode (snd (canExecute2 B g clk arg)) = safeMode g
   \<and> symbolHalt (snd (canExecute2 B g clk arg)) = symbolHalt g
   \<and> startedAt (snd (canExecute2 B g clk arg)) = startedAt g
   \<and> maxPerSec (rateLimiter (snd (canExecute2 B g clk arg))) = maxPerSec (rateLimiter g)"
proof -
  let ?g1 = "snd (canExecute B g clk arg)" and ?g2 = "snd (canExecute2 B g clk arg)"
  have 1: "?g1 = g\<lparr>lastSnapshotAt := at_entry clk, rateLimiter := rateLimiter ?g1\<rparr>"
    by (rule canExecute_state)
  have 2: "?g2 = g\<lparr>lastSnapshotAt := at_entry clk, rateLimiter := rateLimiter ?g2\<rparr>"
    by (rule canExecute2_state)
  have a: "config ?g1 = config g \<and> version ?g1 = version g \<and> globalHalt ?g1 = globalHalt g
      \<and> safeMode ?g1 = safeMode g \<and> symbolHalt ?g1 = symbolHalt g \<and> startedAt ?g1 = startedAt g"
    by (subst 1, simp)+
  have b: "config ?g2 = config g \<and> version ?g2 = version g \<and> globalHalt ?g2 = globalHalt g
      \<and> safeMode ?g2 = safeMode g \<and> symbolHalt ?g2 = symbolHalt g \<and> startedAt ?g2 = startedAt g"
    by (subst 2, simp)+
  show ?thesis
    using a b canExecute_maxPerSec [of B g clk arg] canExecute2_maxPerSec [of B g clk arg]
    by blast
qed

end
